theory Spec2Isabelle
  imports
    Main
    "HOL-Library.AList"
    "HOL-Library.Char_ord"
    "HOL-Library.List_Lexorder"
    "HOL-Library.Signed_Division"
begin

section \<open>Data model\<close>

text \<open>
  The package \<^verbatim>\<open>logging\<close> builds structured log events from HTTP requests and hands
  them to a logrus entry. An event is what reaches the emitter: a field mapping, a
  severity and a message. Go strings are byte sequences, as \<^typ>\<open>string\<close> is; Go maps
  are association lists with distinct keys, written with \<^const>\<open>AList.update\<close> and read
  with \<^const>\<open>map_of\<close>; Go's \<^verbatim>\<open>int\<close> is \<^typ>\<open>int\<close> (status codes are only compared and
  printed, never computed with).
\<close>

datatype Level = PanicLevel | FatalLevel | ErrorLevel | WarnLevel | InfoLevel | DebugLevel | TraceLevel

datatype Formatter = TextFormatter | LogstashFormatter

record Logger_t =
  Formatter :: Formatter
  Level :: Level

text \<open>Times are nanoseconds on the clock of the process.\<close>

type_synonym Time = int

text \<open>The values that the event builders store in \<^verbatim>\<open>logrus.Fields\<close>.\<close>

datatype fval =
    FString string
  | FInt int
  | FTime Time
  | FCookies "(string \<times> string) list"

type_synonym Fields = "(string \<times> fval) list"

record event =
  Data :: Fields
  severity :: Level
  message :: string

text \<open>
  \<^verbatim>\<open>http.Header\<close> is read only through \<^verbatim>\<open>Get\<close>: a header set is the function from a
  header name to what \<^verbatim>\<open>Get\<close> returns for it (the empty string when the header is not
  set). \<^verbatim>\<open>Hostname\<close> and \<^verbatim>\<open>Port\<close> are the results of the accessors of \<^verbatim>\<open>url.URL\<close>,
  \<^verbatim>\<open>Cookies\<close> is the result of \<^verbatim>\<open>r.Cookies()\<close>: name and value of each cookie of the
  request, in order.
\<close>

type_synonym Header_t = "string \<Rightarrow> string"

record URL_t =
  Scheme :: string
  Hostname :: string
  Port :: string
  Path :: string
  RawQuery :: string

record Request =
  Method :: string
  URL :: URL_t
  Proto :: string
  Header :: Header_t
  Host :: string
  RemoteAddr :: string
  Cookies :: "(string \<times> string) list"

record Response =
  StatusCode :: int
  RespHeader :: Header_t

text \<open>The package-level variables.\<close>

record globals =
  Logger :: Logger_t
  AccessLogCookiesBlacklist :: "string list"
  AnonymizedQueryParams :: "string list"
  CorrelationIdHeader :: string
  UserCorrelationIdHeader :: string

section \<open>Helpers: membership and number formatting\<close>

fun contains :: "string list \<Rightarrow> string \<Rightarrow> bool" where
  "contains [] e = False"
| "contains (a # s) e = (if a = e then True else contains s e)"

text \<open>\<^verbatim>\<open>%v\<close> of an integer: its decimal digits, with a minus sign below zero.\<close>

definition digit :: "nat \<Rightarrow> char" where
  "digit d = ''0123456789abcdef'' ! d"

function fmtNat :: "nat \<Rightarrow> nat \<Rightarrow> string" where
  "fmtNat b n = (if n < b \<or> b < 2 then [digit n] else fmtNat b (n div b) @ [digit (n mod b)])"
  by pat_completeness auto
termination
  by (relation "measure (\<lambda>(b, n). n)") auto

declare fmtNat.simps [simp del]

definition fmtInt :: "int \<Rightarrow> string" where
  "fmtInt i = (if i < 0 then CHR ''-'' # fmtNat 10 (nat (- i)) else fmtNat 10 (nat i))"

section \<open>The emitter: logrus entries\<close>

text \<open>
  \<^verbatim>\<open>Logger.WithFields(fields)\<close> is an entry holding the fields; \<^verbatim>\<open>Info\<close>, \<^verbatim>\<open>Warn\<close>
  and \<^verbatim>\<open>Error\<close> hand the entry, a severity and a message to the sink, whatever the level
  of the logger. The sink is the list of the events handed over so far.
\<close>

definition emit :: "Level \<Rightarrow> Fields \<Rightarrow> string \<Rightarrow> event list \<Rightarrow> event list" where
  "emit l e msg out = out @ [\<lparr>Data = e, severity = l, message = msg\<rparr>]"

definition Entry_Info :: "Fields \<Rightarrow> string \<Rightarrow> event list \<Rightarrow> event list" where
  "Entry_Info = emit InfoLevel"

definition Entry_Warn :: "Fields \<Rightarrow> string \<Rightarrow> event list \<Rightarrow> event list" where
  "Entry_Warn = emit WarnLevel"

definition Entry_Error :: "Fields \<Rightarrow> string \<Rightarrow> event list \<Rightarrow> event list" where
  "Entry_Error = emit ErrorLevel"

section \<open>Query strings: the functions of net/url that the builders call\<close>

text \<open>
  \<^verbatim>\<open>url.Values\<close> is \<^verbatim>\<open>map[string][]string\<close>. Reading a key that is not there gives the
  empty slice.
\<close>

type_synonym Values = "(string \<times> string list) list"

definition Values_get :: "Values \<Rightarrow> string \<Rightarrow> string list" where
  "Values_get m k = (case map_of m k of None \<Rightarrow> [] | Some vs \<Rightarrow> vs)"

definition ishex :: "char \<Rightarrow> bool" where
  "ishex c = ((CHR ''0'' \<le> c \<and> c \<le> CHR ''9'') \<or> (CHR ''a'' \<le> c \<and> c \<le> CHR ''f'')
     \<or> (CHR ''A'' \<le> c \<and> c \<le> CHR ''F''))"

definition unhex :: "char \<Rightarrow> nat" where
  "unhex c =
     (if CHR ''0'' \<le> c \<and> c \<le> CHR ''9'' then of_char c - of_char CHR ''0''
      else if CHR ''a'' \<le> c \<and> c \<le> CHR ''f'' then of_char c - of_char CHR ''a'' + 10
      else if CHR ''A'' \<le> c \<and> c \<le> CHR ''F'' then of_char c - of_char CHR ''A'' + 10
      else 0)"

definition upperhex :: "nat \<Rightarrow> char" where
  "upperhex d = ''0123456789ABCDEF'' ! d"

text \<open>\<^verbatim>\<open>shouldEscape\<close> in the mode of a query component: letters, digits and \<^verbatim>\<open>-_.~\<close> pass.\<close>

definition shouldEscape :: "char \<Rightarrow> bool" where
  "shouldEscape c =
     (if (CHR ''a'' \<le> c \<and> c \<le> CHR ''z'') \<or> (CHR ''A'' \<le> c \<and> c \<le> CHR ''Z'')
         \<or> (CHR ''0'' \<le> c \<and> c \<le> CHR ''9'') then False
      else if c = CHR ''-'' \<or> c = CHR ''_'' \<or> c = CHR ''.'' \<or> c = CHR ''~'' then False
      else True)"

fun QueryEscape :: "string \<Rightarrow> string" where
  "QueryEscape [] = []"
| "QueryEscape (c # s) =
     (if c = CHR '' '' then CHR ''+'' # QueryEscape s
      else if shouldEscape c then
        CHR ''%'' # upperhex (of_char c div 16) # upperhex (of_char c mod 16) # QueryEscape s
      else c # QueryEscape s)"

datatype url_error = EscapeError string

text \<open>
  \<^verbatim>\<open>QueryUnescape\<close> turns \<^verbatim>\<open>%XX\<close> into the byte and \<^verbatim>\<open>+\<close> into a space; a \<^verbatim>\<open>%\<close> that two
  hexadecimal digits do not follow is an error, reported for the first such place.
\<close>

fun QueryUnescape :: "string \<Rightarrow> url_error + string" where
  "QueryUnescape [] = Inr []"
| "QueryUnescape (c # s) =
     (if c = CHR ''%'' then
        (case s of
           a # b # s' \<Rightarrow>
             if ishex a \<and> ishex b then
               (case QueryUnescape s' of
                  Inl e \<Rightarrow> Inl e
                | Inr t \<Rightarrow> Inr (char_of (unhex a * 16 + unhex b) # t))
             else Inl (EscapeError (take 3 (c # s)))
         | _ \<Rightarrow> Inl (EscapeError (take 3 (c # s))))
      else
        (case QueryUnescape s of
           Inl e \<Rightarrow> Inl e
         | Inr t \<Rightarrow> Inr ((if c = CHR ''+'' then CHR '' '' else c) # t)))"

text \<open>\<^verbatim>\<open>strings.Cut\<close> at a one-byte separator: the text before its first occurrence and the
  text after it (all of the string and nothing when it does not occur).\<close>

definition Cut :: "string \<Rightarrow> char \<Rightarrow> string \<times> string" where
  "Cut s sep = (takeWhile (\<lambda>c. c \<noteq> sep) s, drop 1 (dropWhile (\<lambda>c. c \<noteq> sep) s))"

text \<open>
  \<^verbatim>\<open>parseQuery\<close> (Go 1.17 and later): the query is cut at every \<^verbatim>\<open>&\<close>; a piece holding a
  semicolon, an empty piece and a piece whose key or value does not unescape are
  skipped; the others append their value to the values of their key. \<^verbatim>\<open>URL.Query\<close>
  drops the error that \<^verbatim>\<open>ParseQuery\<close> returns beside the map.
\<close>

function parseQuery :: "Values \<Rightarrow> string \<Rightarrow> Values" where
  "parseQuery m query =
     (if query = [] then m
      else
        let (key, rest) = Cut query CHR ''&'' in
        if CHR '';'' \<in> set key then parseQuery m rest
        else if key = [] then parseQuery m rest
        else
          let (key', val) = Cut key CHR ''='' in
          (case QueryUnescape key' of
             Inl e \<Rightarrow> parseQuery m rest
           | Inr k \<Rightarrow>
               (case QueryUnescape val of
                  Inl e \<Rightarrow> parseQuery m rest
                | Inr v \<Rightarrow> parseQuery (AList.update k (Values_get m k @ [v]) m) rest)))"
  by pat_completeness auto
termination
proof -
  have shorter: "length (snd (Cut s sep)) < length s" if ne: "s \<noteq> []" for s :: string and sep
  proof -
    let ?d = "dropWhile (\<lambda>c. c \<noteq> sep) s"
    have le: "length ?d \<le> length s"
      by (rule length_dropWhile_le)
    from ne have pos: "0 < length s"
      by simp
    from le pos have "length ?d - 1 < length s"
      by linarith
    then show ?thesis
      by (simp add: Cut_def)
  qed
  have step: "((m', rest), (m, query)) \<in> measure (\<lambda>(m, query). length query)"
    if "query \<noteq> []" and "x = Cut query CHR ''&''" and "(key, rest) = x"
    for m m' :: Values and query key rest x
    using that shorter [of query "CHR ''&''"] by (simp add: snd_def split: prod.splits)
  show ?thesis
    by (relation "measure (\<lambda>(m, query). length query)") (simp, (rule step; assumption)+)
qed

declare parseQuery.simps [simp del]

definition URL_Query :: "URL_t \<Rightarrow> Values" where
  "URL_Query u = parseQuery [] (RawQuery u)"

text \<open>
  \<^verbatim>\<open>Values.Encode\<close>: nothing for the empty map; otherwise the keys in ascending order
  (Go compares strings byte by byte, as the lexicographic order on \<^typ>\<open>string\<close> does),
  every value of a key written \<^verbatim>\<open>key=value\<close>, both escaped, with \<^verbatim>\<open>&\<close> before every
  pair but the first.
\<close>

definition Values_Encode :: "Values \<Rightarrow> string" where
  "Values_Encode v =
     (if length v = 0 then []
      else
        fold (\<lambda>k buf.
                let vs = Values_get v k; keyEscaped = QueryEscape k in
                fold (\<lambda>val buf.
                        (if length buf > 0 then buf @ ''&'' else buf)
                          @ keyEscaped @ ''='' @ QueryEscape val)
                     vs buf)
             (sort (map fst v)) [])"

section \<open>Redaction of the query string\<close>

text \<open>
  The loop of \<^verbatim>\<open>buildFullPath\<close> over \<^verbatim>\<open>r.URL.Query()\<close>. Go visits the entries of a map
  in an order of its own choosing, so the loop is a function of the entries in the order
  in which they are visited.
\<close>

definition anonymize :: "string list \<Rightarrow> Values \<Rightarrow> Values" where
  "anonymize anonymized entries =
     fold (\<lambda>(key, val) queryParams.
             if contains anonymized key then AList.update key [''*****''] queryParams
             else AList.update key val queryParams)
          entries []"

text \<open>The rest of \<^verbatim>\<open>buildFullPath\<close>; an error of \<^verbatim>\<open>QueryUnescape\<close> is dropped and leaves
  the empty string.\<close>

definition formatPath :: "string \<Rightarrow> Values \<Rightarrow> string" where
  "formatPath path queryParams =
     (let queryString = (case QueryUnescape (Values_Encode queryParams) of
                           Inl e \<Rightarrow> []
                         | Inr s \<Rightarrow> s)
      in if queryString \<noteq> [] then path @ ''?'' @ queryString else path)"

definition buildFullPath_visiting :: "globals \<Rightarrow> Request \<Rightarrow> Values \<Rightarrow> string" where
  "buildFullPath_visiting g r entries =
     formatPath (Path (URL r)) (anonymize (AnonymizedQueryParams g) entries)"

text \<open>\<^verbatim>\<open>buildFullPath\<close>, visiting the parameters in the order of their first occurrence.\<close>

definition buildFullPath :: "globals \<Rightarrow> Request \<Rightarrow> string" where
  "buildFullPath g r = buildFullPath_visiting g r (URL_Query (URL r))"

definition buildFullUrl :: "globals \<Rightarrow> Request \<Rightarrow> string" where
  "buildFullUrl g r =
     (let buffer = Scheme (URL r) @ ''://'';
          buffer = buffer @ Hostname (URL r);
          buffer = (if Port (URL r) \<noteq> [] then buffer @ '':'' @ Port (URL r) else buffer)
      in buffer @ buildFullPath g r)"

section \<open>Correlation identifiers\<close>

text \<open>
  Modelled from the spec: \<^verbatim>\<open>GetCorrelationId\<close> and the variable \<^verbatim>\<open>CorrelationIdHeader\<close> are
  declared in a file of the package that is not at hand. The specification gives
  \<^verbatim>\<open>getCorrelationId(headers) -> string|empty\<close>, reading one fixed, overridable header
  name.
\<close>

definition GetCorrelationId :: "globals \<Rightarrow> Header_t \<Rightarrow> string" where
  "GetCorrelationId g h = h (CorrelationIdHeader g)"

definition GetUserCorrelationId :: "globals \<Rightarrow> Header_t \<Rightarrow> string" where
  "GetUserCorrelationId g h = h (UserCorrelationIdHeader g)"

definition setCorrelationIds :: "globals \<Rightarrow> Fields \<Rightarrow> Header_t \<Rightarrow> Fields" where
  "setCorrelationIds g flds h =
     (let correlationId = GetCorrelationId g h;
          flds = (if correlationId \<noteq> []
                  then AList.update ''correlation_id'' (FString correlationId) flds
                  else flds);
          userCorrelationId = GetUserCorrelationId g h
      in if userCorrelationId \<noteq> []
         then AList.update ''user_correlation_id'' (FString userCorrelationId) flds
         else flds)"

section \<open>The event builders\<close>

definition getRemoteIp :: "Request \<Rightarrow> string" where
  "getRemoteIp r =
     (if Header r ''X-Cluster-Client-Ip'' \<noteq> [] then Header r ''X-Cluster-Client-Ip''
      else if Header r ''X-Real-Ip'' \<noteq> [] then Header r ''X-Real-Ip''
      else takeWhile (\<lambda>c. c \<noteq> CHR '':'') (RemoteAddr r))"

text \<open>The cookie loop of \<^verbatim>\<open>access\<close>.\<close>

definition loggedCookies :: "string list \<Rightarrow> (string \<times> string) list \<Rightarrow> (string \<times> string) list" where
  "loggedCookies blacklist cs =
     fold (\<lambda>(name, val) cookies.
             if \<not> contains blacklist name then AList.update name val cookies else cookies)
          cs []"

text \<open>
  An \<^verbatim>\<open>error\<close> is \<^verbatim>\<open>None\<close> for \<^verbatim>\<open>nil\<close> and otherwise the text of \<^verbatim>\<open>err.Error()\<close>.
  \<^verbatim>\<open>start\<close> is the time passed in, \<^verbatim>\<open>now\<close> what the clock shows at \<^verbatim>\<open>time.Since\<close>; the
  division of Go rounds towards zero.
\<close>

definition access :: "globals \<Rightarrow> Request \<Rightarrow> Time \<Rightarrow> Time \<Rightarrow> int \<Rightarrow> string option \<Rightarrow> Fields" where
  "access g r start now statusCode err =
     (let flds =
            [(''type'', FString ''access''),
             (''@timestamp'', FTime start),
             (''remote_ip'', FString (getRemoteIp r)),
             (''host'', FString (Host r)),
             (''url'', FString (buildFullPath g r)),
             (''method'', FString (Method r)),
             (''proto'', FString (Proto r)),
             (''duration'', FInt ((now - start) sdiv 1000000)),
             (''User_Agent'', FString (Header r ''User-Agent''))];
          flds = (if statusCode \<noteq> 0
                  then AList.update ''response_status'' (FInt statusCode) flds
                  else flds);
          flds = (case err of
                    None \<Rightarrow> flds
                  | Some e \<Rightarrow> AList.update ''error'' (FString e) flds);
          flds = setCorrelationIds g flds (Header r);
          cookies = loggedCookies (AccessLogCookiesBlacklist g) (Cookies r)
      in if length cookies > 0 then AList.update ''cookies'' (FCookies cookies) flds
         else flds)"

definition Access :: "globals \<Rightarrow> Request \<Rightarrow> Time \<Rightarrow> Time \<Rightarrow> int \<Rightarrow> event list \<Rightarrow> event list" where
  "Access g r start now statusCode out =
     (let e = access g r start now statusCode None;
          msg = (if length (RawQuery (URL r)) = 0
                 then fmtInt statusCode @ '' ->'' @ Method r @ '' '' @ Path (URL r)
                 else fmtInt statusCode @ '' ->'' @ Method r @ '' '' @ Path (URL r) @ ''?...'')
      in if statusCode \<ge> 200 \<and> statusCode \<le> 399 then Entry_Info e msg out
         else if statusCode \<ge> 400 \<and> statusCode \<le> 499 then Entry_Warn e msg out
         else Entry_Error e msg out)"

definition AccessError :: "globals \<Rightarrow> Request \<Rightarrow> Time \<Rightarrow> Time \<Rightarrow> string \<Rightarrow> event list \<Rightarrow> event list" where
  "AccessError g r start now err out =
     (let e = access g r start now 0 (Some err)
      in Entry_Error e (''ERROR ->'' @ Method r @ '' '' @ Path (URL r)) out)"

definition Call ::
  "globals \<Rightarrow> Request \<Rightarrow> Response option \<Rightarrow> Time \<Rightarrow> Time \<Rightarrow> string option \<Rightarrow> event list \<Rightarrow> event list" where
  "Call g r resp start now err out =
     (let flds =
            [(''type'', FString ''call''),
             (''@timestamp'', FTime start),
             (''host'', FString (Host r)),
             (''url'', FString (buildFullPath g r)),
             (''full_url'', FString (buildFullUrl g r)),
             (''method'', FString (Method r)),
             (''duration'', FInt ((now - start) sdiv 1000000))];
          flds = setCorrelationIds g flds (Header r)
      in case err of
           Some e \<Rightarrow> Entry_Error (AList.update ''error'' (FString e) flds) e out
         | None \<Rightarrow>
             (case resp of
                Some rsp \<Rightarrow>
                  let flds = AList.update ''response_status'' (FInt (StatusCode rsp)) flds;
                      flds = AList.update ''content_type''
                               (FString (RespHeader rsp ''Content-Type'')) flds;
                      e = flds;
                      msg = fmtInt (StatusCode rsp) @ '' '' @ Method r @ ''-> '' @ buildFullUrl g r
                  in if StatusCode rsp \<ge> 200 \<and> StatusCode rsp \<le> 399 then Entry_Info e msg out
                     else if StatusCode rsp \<ge> 400 \<and> StatusCode rsp \<le> 499 then Entry_Warn e msg out
                     else Entry_Error e msg out
              | None \<Rightarrow> Entry_Warn flds ''call, but no response given'' out))"

text \<open>\<^verbatim>\<open>Application\<close> returns the entry and emits nothing.\<close>

definition Application :: "globals \<Rightarrow> Header_t \<Rightarrow> Fields" where
  "Application g h = setCorrelationIds g [(''type'', FString ''application'')] h"

section \<open>Configuration of the logger\<close>

text \<open>
  \<^verbatim>\<open>logrus.ParseLevel\<close> belongs to the logging library, so \<^verbatim>\<open>Set\<close> takes it as a
  parameter. Its error is passed on unread; \<^verbatim>\<open>Set\<close> returns the error (\<^verbatim>\<open>None\<close> for
  \<^verbatim>\<open>nil\<close>) and the package variables.
\<close>

datatype error = NotAValidLevel string

definition Set ::
  "(string \<Rightarrow> error + Level) \<Rightarrow> string \<Rightarrow> bool \<Rightarrow> globals \<Rightarrow> error option \<times> globals" where
  "Set parseLevel level textLogging g =
     (case parseLevel level of
        Inl err \<Rightarrow> (Some err, g)
      | Inr l \<Rightarrow>
          let logger = \<lparr>Formatter = (if textLogging then TextFormatter else LogstashFormatter),
                         Level = l\<rparr>
          in (None, g\<lparr>Logger := logger\<rparr>))"

text \<open>The parser of logrus on level names, lowering the letters of ASCII.\<close>

definition ToLower :: "string \<Rightarrow> string" where
  "ToLower = map (\<lambda>c. if CHR ''A'' \<le> c \<and> c \<le> CHR ''Z'' then char_of (of_char c + 32 :: nat) else c)"

definition ParseLevel :: "string \<Rightarrow> error + Level" where
  "ParseLevel lvl =
     (let l = ToLower lvl in
      if l = ''panic'' then Inr PanicLevel
      else if l = ''fatal'' then Inr FatalLevel
      else if l = ''error'' then Inr ErrorLevel
      else if l = ''warn'' \<or> l = ''warning'' then Inr WarnLevel
      else if l = ''info'' then Inr InfoLevel
      else if l = ''debug'' then Inr DebugLevel
      else if l = ''trace'' then Inr TraceLevel
      else Inl (NotAValidLevel lvl))"

section \<open>The middleware\<close>

text \<open>
  What a handler does to the middleware is the sequence of its calls on the response
  writer it was given, and then its return or its panic; it leaves the request as it
  is. The value of a panic is the text that \<^verbatim>\<open>%v\<close> prints for it; with it comes the
  call stack that \<^verbatim>\<open>runtime.Callers\<close> sees from the recovery point.
\<close>

datatype action = WriteHeader int | Write string

record frame =
  pc :: nat
  func :: "(string \<times> string \<times> int) option"

datatype outcome = Returned | Panicked string "frame list"

record run =
  actions :: "action list"
  outcome :: outcome

record LogMiddleware =
  Next :: "Request \<Rightarrow> run"
  panicCode :: int

text \<open>The response writer below the wrapper is the list of the calls it has received.\<close>

record logResponseWriter =
  ResponseWriter :: "action list"
  statusCode :: int

definition lrw_Write :: "logResponseWriter \<Rightarrow> string \<Rightarrow> logResponseWriter" where
  "lrw_Write lrw b = lrw\<lparr>ResponseWriter := ResponseWriter lrw @ [Write b]\<rparr>"

definition lrw_WriteHeader :: "logResponseWriter \<Rightarrow> int \<Rightarrow> logResponseWriter" where
  "lrw_WriteHeader lrw code =
     (let lrw = lrw\<lparr>statusCode := code\<rparr>
      in lrw\<lparr>ResponseWriter := ResponseWriter lrw @ [WriteHeader code]\<rparr>)"

fun perform :: "action \<Rightarrow> logResponseWriter \<Rightarrow> logResponseWriter" where
  "perform (WriteHeader code) lrw = lrw_WriteHeader lrw code"
| "perform (Write b) lrw = lrw_Write lrw b"

definition HasPrefix :: "string \<Rightarrow> string \<Rightarrow> bool" where
  "HasPrefix s p = (take (length p) s = p)"

fun join :: "string list \<Rightarrow> string \<Rightarrow> string" where
  "join [] sep = []"
| "join [x] sep = x"
| "join (x # y # xs) sep = x @ sep @ join (y # xs) sep"

text \<open>The loop of \<^verbatim>\<open>identifyLogOrigin\<close> over the frames, carrying name, file and line.\<close>

fun scanFrames :: "frame list \<Rightarrow> string \<times> string \<times> int \<Rightarrow> string \<times> string \<times> int" where
  "scanFrames [] found = found"
| "scanFrames (f # fs) found =
     (case func f of
        None \<Rightarrow> scanFrames fs found
      | Some (name, file, line) \<Rightarrow>
          if \<not> HasPrefix name ''runtime.'' then (name, file, line)
          else scanFrames fs (name, file, line))"

definition identifyLogOrigin :: "frame list \<Rightarrow> string" where
  "identifyLogOrigin stack =
     (let pcs = take 16 stack;
          (name, file, line) = scanFrames pcs ([], [], 0)
      in if name \<noteq> [] then name @ '':'' @ fmtInt line
         else if file \<noteq> [] then file @ '':'' @ fmtInt line
         else ''pc:['' @ join (map (\<lambda>f. fmtNat 16 (pc f)) pcs @ replicate (16 - length pcs) ''0'') '' ''
                @ '']'')"

text \<open>
  Modelled from the spec: \<^verbatim>\<open>EnsureCorrelationId\<close> is declared in a file of the package that
  is not at hand. The specification has it check whether the request correlation header
  is present; if it is absent no identifier is synthesized, unless the system mints
  one, which is then injected into the inbound header set. \<^verbatim>\<open>mint\<close> is the minted token,
  \<^verbatim>\<open>None\<close> where nothing is minted.
\<close>

definition EnsureCorrelationId :: "globals \<Rightarrow> string option \<Rightarrow> Request \<Rightarrow> Request" where
  "EnsureCorrelationId g mint r =
     (if GetCorrelationId g (Header r) \<noteq> [] then r
      else case mint of
             None \<Rightarrow> r
           | Some token \<Rightarrow> r\<lparr>Header := (Header r)(CorrelationIdHeader g := token)\<rparr>)"

text \<open>
  \<^verbatim>\<open>ServeHTTP\<close>: \<^verbatim>\<open>w\<close> is the response writer of the server (a recorder of its calls,
  which never panics itself), \<^verbatim>\<open>start\<close> and \<^verbatim>\<open>now\<close> are the clock at entry and when
  the event is built. The deferred function runs its body when \<^verbatim>\<open>recover\<close> returns the
  value of a panic, and the panic ends there, so that \<^verbatim>\<open>ServeHTTP\<close> returns. The result
  is the response writer, the sink and the way \<^verbatim>\<open>ServeHTTP\<close> ends.
\<close>

definition ServeHTTP ::
  "globals \<Rightarrow> string option \<Rightarrow> LogMiddleware \<Rightarrow> action list \<Rightarrow> Request \<Rightarrow> Time \<Rightarrow> Time
     \<Rightarrow> event list \<Rightarrow> action list \<times> event list \<times> outcome" where
  "ServeHTTP g mint mw w r start now out =
     (let r = EnsureCorrelationId g mint r;
          lrw = \<lparr>ResponseWriter = w, statusCode = 200\<rparr>;
          handled = Next mw r;
          lrw = fold perform (actions handled) lrw
      in case outcome handled of
           Returned \<Rightarrow> (ResponseWriter lrw, Access g r start now (statusCode lrw) out, Returned)
         | Panicked rec stack \<Rightarrow>
             let out = AccessError g r start now
                         (''PANIC ('' @ identifyLogOrigin stack @ ''): '' @ rec) out
             in if panicCode mw \<noteq> 0
                then (ResponseWriter lrw @ [WriteHeader (panicCode mw)], out, Returned)
                else (ResponseWriter lrw, out, Returned))"

section \<open>The redacted path, as the specification describes it\<close>

text \<open>
  The parameters of a query as the pairs of a name and one of its values: names in
  ascending order, the values of one name in the order of the request.
\<close>

definition pairsOf :: "Values \<Rightarrow> (string \<times> string) list" where
  "pairsOf v = concat (map (\<lambda>k. map (Pair k) (Values_get v k)) (sort (map fst v)))"

definition showPair :: "string \<times> string \<Rightarrow> string" where
  "showPair p = fst p @ ''='' @ snd p"

definition encPair :: "string \<times> string \<Rightarrow> string" where
  "encPair p = QueryEscape (fst p) @ ''='' @ QueryEscape (snd p)"

text \<open>Nothing for a query without parameters, else \<^verbatim>\<open>?\<close> and the pairs, written
  \<^verbatim>\<open>name=value\<close> as they are (not escaped) and joined by \<^verbatim>\<open>&\<close>.\<close>

definition queryPart :: "(string \<times> string) list \<Rightarrow> string" where
  "queryPart ps = (if ps = [] then [] else ''?'' @ join (map showPair ps) ''&'')"

text \<open>For every query parameter, if its name is anonymized, its values are replaced by
  the mask.\<close>

definition redact :: "string list \<Rightarrow> Values \<Rightarrow> Values" where
  "redact anonymized q =
     map (\<lambda>(k, vs). (k, if k \<in> set anonymized then [''*****''] else vs)) q"

definition redactedPath :: "globals \<Rightarrow> Request \<Rightarrow> string" where
  "redactedPath g r =
     Path (URL r) @ queryPart (pairsOf (redact (AnonymizedQueryParams g) (URL_Query (URL r))))"

text \<open>One step of the buffer of \<^verbatim>\<open>Values.Encode\<close>.\<close>

definition addPair :: "string \<Rightarrow> string \<Rightarrow> string" where
  "addPair seg buf = (if length buf > 0 then buf @ ''&'' else buf) @ seg"

text \<open>The fields of \<^verbatim>\<open>access\<close> before the correlation identifiers and the cookies
  are set.\<close>

definition accessFields :: "globals \<Rightarrow> Request \<Rightarrow> Time \<Rightarrow> Time \<Rightarrow> int \<Rightarrow> string option \<Rightarrow> Fields" where
  "accessFields g r start now status err =
     (let flds =
            [(''type'', FString ''access''),
             (''@timestamp'', FTime start),
             (''remote_ip'', FString (getRemoteIp r)),
             (''host'', FString (Host r)),
             (''url'', FString (buildFullPath g r)),
             (''method'', FString (Method r)),
             (''proto'', FString (Proto r)),
             (''duration'', FInt ((now - start) sdiv 1000000)),
             (''User_Agent'', FString (Header r ''User-Agent''))];
          flds = (if status \<noteq> 0
                  then AList.update ''response_status'' (FInt status) flds
                  else flds)
      in case err of
           None \<Rightarrow> flds
         | Some e \<Rightarrow> AList.update ''error'' (FString e) flds)"

text \<open>A correlation identifier as a field: the value itself, and no field for the empty
  string.\<close>

definition idField :: "string \<Rightarrow> fval option" where
  "idField v = (if v \<noteq> [] then Some (FString v) else None)"

text \<open>The field of an event.\<close>

definition field :: "event \<Rightarrow> string \<Rightarrow> fval option" where
  "field e name = map_of (Data e) name"

section \<open>The status that the wrapper has recorded\<close>

text \<open>The arguments of the calls of \<^verbatim>\<open>WriteHeader\<close> among the calls of a handler, in
  order; the recorded status is the last of them, and 200 when there is none.\<close>

fun headerCodes :: "action list \<Rightarrow> int list" where
  "headerCodes [] = []"
| "headerCodes (WriteHeader code # acts) = code # headerCodes acts"
| "headerCodes (Write b # acts) = headerCodes acts"

definition recordedStatus :: "action list \<Rightarrow> int" where
  "recordedStatus acts = (if headerCodes acts = [] then 200 else last (headerCodes acts))"

section \<open>The rule of the specification for severities\<close>

definition severityOfStatus :: "int \<Rightarrow> Level" where
  "severityOfStatus s =
     (if 200 \<le> s \<and> s \<le> 399 then InfoLevel
      else if 400 \<le> s \<and> s \<le> 499 then WarnLevel
      else ErrorLevel)"

section \<open>The inputs of the package's tests\<close>

definition test_globals :: globals where
  "test_globals =
     \<lparr>Logger = \<lparr>Formatter = LogstashFormatter, Level = InfoLevel\<rparr>,
      AccessLogCookiesBlacklist = [''ignore'', ''user_id''],
      AnonymizedQueryParams = [],
      CorrelationIdHeader = ''X-Correlation-Id'',
      UserCorrelationIdHeader = ''X-User-Correlation-Id''\<rparr>"

definition test_header :: Header_t where
  "test_header k =
     (if k = ''X-Correlation-Id'' then ''correlation-123''
      else if k = ''X-User-Correlation-Id'' then ''user-correlation-123''
      else if k = ''Cookie'' then ''ignore=me; foo=bar;''
      else [])"

definition test_request :: Request where
  "test_request =
     \<lparr>Method = ''GET'',
      URL = \<lparr>Scheme = ''http'', Hostname = ''www.example.org'', Port = [], Path = ''/foo'',
             RawQuery = ''q=bar''\<rparr>,
      Proto = ''HTTP/1.1'',
      Header = test_header,
      Host = ''www.example.org'',
      RemoteAddr = ''127.0.0.1'',
      Cookies = [(''ignore'', ''me''), (''foo'', ''bar'')]\<rparr>"

definition test_response :: Response where
  "test_response =
     \<lparr>StatusCode = 404, RespHeader = (\<lambda>k. if k = ''Content-Type'' then ''text/html'' else [])\<rparr>"

text \<open>Requests whose query is not in the form that \<^verbatim>\<open>Values.Encode\<close> writes, one with
  parameters that occur twice, and one with a value that holds an escaped \<^verbatim>\<open>&\<close>.\<close>

definition unsorted_request :: Request where
  "unsorted_request = test_request\<lparr>URL := (URL test_request)\<lparr>RawQuery := ''b=x%2Fy&a=2''\<rparr>\<rparr>"

definition repeated_request :: Request where
  "repeated_request = test_request\<lparr>URL := (URL test_request)\<lparr>RawQuery := ''q=a&q=b&p=1&p=2''\<rparr>\<rparr>"

definition injected_request :: Request where
  "injected_request =
     test_request\<lparr>URL := (URL test_request)\<lparr>RawQuery := ''a=x%26q%3Dsecret&q=real''\<rparr>\<rparr>"

definition anonymizing_globals :: globals where
  "anonymizing_globals = test_globals\<lparr>AnonymizedQueryParams := [''q'']\<rparr>"

text \<open>A request that carries two cookies of one name.\<close>

definition duplicate_cookie_request :: Request where
  "duplicate_cookie_request = test_request\<lparr>Cookies := [(''foo'', ''1''), (''foo'', ''2'')]\<rparr>"

text \<open>A handler that panics with the value \<^verbatim>\<open>boom\<close>, one that sets the status twice
  and one that writes a body only.\<close>

definition test_stack :: "frame list" where
  "test_stack =
     [\<lparr>pc = 4198400, func = Some (''runtime.gopanic'', ''/usr/lib/go/src/runtime/panic.go'', 513)\<rparr>,
      \<lparr>pc = 4767232, func = Some (''main.handler'', ''/app/main.go'', 42)\<rparr>,
      \<lparr>pc = 4767744, func = Some (''net/http.HandlerFunc.ServeHTTP'', ''/usr/lib/go/src/net/http/server.go'', 1942)\<rparr>]"

definition panicking_mw :: LogMiddleware where
  "panicking_mw =
     \<lparr>Next = (\<lambda>r. \<lparr>actions = [], outcome = Panicked ''boom'' test_stack\<rparr>), panicCode = 0\<rparr>"

definition twice_mw :: LogMiddleware where
  "twice_mw =
     \<lparr>Next = (\<lambda>r. \<lparr>actions = [WriteHeader 404, Write ''not found'', WriteHeader 500],
                      outcome = Returned\<rparr>),
      panicCode = 0\<rparr>"

definition plain_mw :: LogMiddleware where
  "plain_mw = \<lparr>Next = (\<lambda>r. \<lparr>actions = [Write ''ok''], outcome = Returned\<rparr>), panicCode = 0\<rparr>"

section \<open>Severity of access and call events\<close>

lemma severity_emit: "map severity (emit l e msg out) = map severity out @ [l]"
  by (simp add: emit_def)

text \<open>
  C1. For every status code passed to \<^verbatim>\<open>Access\<close> and every response status seen by
  \<^verbatim>\<open>Call\<close> (a response and no error), exactly one event is added to the sink and its
  severity is info for 200 to 399, warning for 400 to 499 and error for every other
  status, below 200 and from 500 on included.
\<close>

theorem severity_by_status:
  "map severity (Access g r start now s out) = map severity out @ [severityOfStatus s]
   \<and> map severity (Call g r (Some rsp) start now None out)
       = map severity out @ [severityOfStatus (StatusCode rsp)]"
  by (simp add: Access_def Call_def Let_def Entry_Info_def Entry_Warn_def Entry_Error_def
      severity_emit severityOfStatus_def)

theorem severity_by_status_witness:
  "map severity (Access test_globals test_request 0 1000000000 201 []) = [InfoLevel]
   \<and> map severity (Call test_globals test_request (Some test_response) 0 1000000000 None [])
       = [WarnLevel]"
  using severity_by_status [of test_globals test_request 0 1000000000 201 "[]" test_response]
  by (simp add: severityOfStatus_def test_response_def)

section \<open>Escaping and unescaping\<close>

lemma hex_all: "\<forall>d \<in> set [0..<16]. ishex (upperhex d) \<and> unhex (upperhex d) = d"
  by code_simp

lemma hex_digit: "d < 16 \<Longrightarrow> ishex (upperhex d) \<and> unhex (upperhex d) = d"
  using hex_all by simp

lemma byte_roundtrip:
  "char_of (unhex (upperhex (of_char c div 16)) * 16 + unhex (upperhex (of_char c mod 16))) = c"
proof -
  let ?n = "of_char c :: nat"
  have hi: "?n div 16 < 16"
    using nat_of_char_less_256 [of c] by arith
  have lo: "?n mod 16 < 16"
    by simp
  have "unhex (upperhex (?n div 16)) * 16 + unhex (upperhex (?n mod 16)) = ?n"
    using hex_digit [OF hi] hex_digit [OF lo] by simp
  then show ?thesis
    by simp
qed

lemma escaped_digits_hex:
  "ishex (upperhex (of_char c div 16)) \<and> ishex (upperhex (of_char c mod 16))"
proof -
  let ?n = "of_char c :: nat"
  have hi: "?n div 16 < 16"
    using nat_of_char_less_256 [of c] by arith
  have lo: "?n mod 16 < 16"
    by simp
  show ?thesis
    using hex_digit [OF hi] hex_digit [OF lo] by simp
qed

lemma plain_not_special: "\<not> shouldEscape c \<Longrightarrow> c \<noteq> CHR ''%'' \<and> c \<noteq> CHR ''+''"
  by (auto simp: shouldEscape_def)


lemma unescape_escape:
  "QueryUnescape (QueryEscape s @ t) =
     (case QueryUnescape t of Inl e \<Rightarrow> Inl e | Inr t' \<Rightarrow> Inr (s @ t'))"
proof (induction s)
  case Nil
  show ?case by (simp split: sum.split)
next
  case (Cons c s)
  show ?case
  proof (cases "c = CHR '' ''")
    case True
    then show ?thesis using Cons.IH by (simp split: sum.split)
  next
    case False
    show ?thesis
    proof (cases "shouldEscape c")
      case True
      with False show ?thesis
        using Cons.IH byte_roundtrip [of c] escaped_digits_hex [of c]
        by (simp split: sum.split)
    next
      case False
      with \<open>c \<noteq> CHR '' ''\<close> show ?thesis
        using Cons.IH plain_not_special [of c]
        by (simp split: sum.split)
    qed
  qed
qed

lemma join_Cons: "join (x # xs) sep = x @ concat (map ((@) sep) xs)"
  by (induction xs arbitrary: x) auto


lemma addPair_Nil: "addPair seg [] = seg"
  by (simp add: addPair_def)

lemma addPair_nonempty: "buf \<noteq> [] \<Longrightarrow> addPair seg buf = buf @ ''&'' @ seg"
  by (simp add: addPair_def)

lemma fold_addPair:
  "\<forall>seg \<in> set segs. seg \<noteq> [] \<Longrightarrow>
   fold addPair segs buf =
     (if buf = [] then join segs ''&'' else buf @ concat (map ((@) ''&'') segs))"
proof (induction segs arbitrary: buf)
  case Nil
  show ?case by simp
next
  case (Cons seg segs)
  then have ne: "addPair seg buf \<noteq> []" and rest: "\<forall>s \<in> set segs. s \<noteq> []"
    by (simp_all add: addPair_def)
  have step: "fold addPair (seg # segs) buf = addPair seg buf @ concat (map ((@) ''&'') segs)"
    using Cons.IH [OF rest, of "addPair seg buf"] ne by simp
  show ?case
  proof (cases "buf = []")
    case True
    with step show ?thesis by (simp add: addPair_Nil join_Cons)
  next
    case False
    with step show ?thesis by (simp add: addPair_nonempty)
  qed
qed

lemma fold_values:
  "fold (\<lambda>val buf. (if length buf > 0 then buf @ ''&'' else buf) @ QueryEscape k @ ''='' @ QueryEscape val) vs buf
   = fold addPair (map (\<lambda>v. encPair (k, v)) vs) buf"
  by (induction vs arbitrary: buf) (simp_all add: addPair_def encPair_def)

lemma fold_keys:
  "fold (\<lambda>k buf. fold addPair (map (\<lambda>v. encPair (k, v)) (Values_get m k)) buf) ks buf
   = fold addPair (map encPair (concat (map (\<lambda>k. map (Pair k) (Values_get m k)) ks))) buf"
  by (induction ks arbitrary: buf) (simp_all add: comp_def)

lemma Values_Encode_fold:
  "Values_Encode v =
     (if length v = 0 then [] else fold addPair (map encPair (pairsOf v)) [])"
  unfolding Values_Encode_def Let_def fold_values fold_keys pairsOf_def
  by (rule refl)

lemma Values_Encode_join: "Values_Encode v = join (map encPair (pairsOf v)) ''&''"
proof -
  have ne: "\<forall>seg \<in> set (map encPair (pairsOf v)). seg \<noteq> []"
    by (simp add: encPair_def)
  show ?thesis
  proof (cases "v = []")
    case True
    then show ?thesis by (simp add: Values_Encode_fold pairsOf_def)
  next
    case False
    then show ?thesis
      using fold_addPair [OF ne, of "[]"]
      by (simp add: Values_Encode_fold)
  qed
qed

lemma unescape_pairs:
  "QueryUnescape (concat (map ((@) ''&'') (map encPair ps)))
     = Inr (concat (map ((@) ''&'') (map showPair ps)))"
  by (induction ps) (simp_all add: encPair_def showPair_def unescape_escape)

lemma unescape_join:
  "QueryUnescape (join (map encPair ps) ''&'') = Inr (join (map showPair ps) ''&'')"
proof (cases ps)
  case Nil
  then show ?thesis by simp
next
  case (Cons p ps')
  then show ?thesis
    using unescape_pairs [of ps']
    by (simp add: join_Cons encPair_def showPair_def unescape_escape)
qed

lemma join_showPair_empty: "join (map showPair ps) ''&'' = [] \<longleftrightarrow> ps = []"
  by (cases ps) (simp_all add: join_Cons showPair_def)

lemma formatPath_pairs: "formatPath path qp = path @ queryPart (pairsOf qp)"
  by (simp add: formatPath_def Values_Encode_join unescape_join queryPart_def join_showPair_empty)

section \<open>The anonymizing loop and the order of its visits\<close>

lemma contains_iff: "contains s e \<longleftrightarrow> e \<in> set s"
  by (induction s) auto

lemma update_fresh: "k \<notin> fst ` set al \<Longrightarrow> AList.update k v al = al @ [(k, v)]"
  by (induction al) auto

lemma fold_update_distinct:
  "distinct (map fst (acc @ es)) \<Longrightarrow>
   fold (\<lambda>(key, val) qp. AList.update key (f key val) qp) es acc
     = acc @ map (\<lambda>(k, v). (k, f k v)) es"
proof (induction es arbitrary: acc)
  case Nil
  show ?case by simp
next
  case (Cons e es)
  obtain k v where e: "e = (k, v)" by (cases e)
  from Cons.prems e have fresh: "k \<notin> fst ` set acc"
    by auto
  from Cons.prems e have "distinct (map fst ((acc @ [(k, f k v)]) @ es))"
    by auto
  from Cons.IH [OF this] show ?case
    by (simp add: e update_fresh [OF fresh])
qed

lemma anonymize_redact:
  "distinct (map fst es) \<Longrightarrow> anonymize anonymized es = redact anonymized es"
proof -
  assume d: "distinct (map fst es)"
  have "anonymize anonymized es =
        fold (\<lambda>(key, val) qp. AList.update key (if contains anonymized key then [''*****''] else val) qp) es []"
    unfolding anonymize_def
    by (rule arg_cong [where f = "\<lambda>f. fold f es []"]) (auto simp: fun_eq_iff)
  also have "\<dots> = [] @ map (\<lambda>(k, v). (k, if contains anonymized k then [''*****''] else v)) es"
    using d by (intro fold_update_distinct) simp
  finally show ?thesis
    by (simp add: redact_def contains_iff)
qed

lemma parseQuery_distinct:
  "distinct (map fst m) \<Longrightarrow> distinct (map fst (parseQuery m query))"
proof (induction m query rule: parseQuery.induct)
  case (1 m query)
  show ?case
  proof (cases "query = []")
    case True
    with "1.prems" show ?thesis by (simp add: parseQuery.simps)
  next
    case False
    obtain key rest where c1: "Cut query CHR ''&'' = (key, rest)"
      by (cases "Cut query CHR ''&''")
    obtain key' val where c2: "Cut key CHR ''='' = (key', val)"
      by (cases "Cut key CHR ''=''")
    show ?thesis
      using False c1 c2 "1.prems" "1.IH"
      by (subst parseQuery.simps) (auto simp: distinct_update split: sum.splits)
  qed
qed

lemma URL_Query_distinct: "distinct (map fst (URL_Query u))"
  by (simp add: URL_Query_def parseQuery_distinct)

lemma sort_keys: "distinct ks \<Longrightarrow> sort ks = sorted_list_of_set (set ks)"
  by (simp only: sorted_list_of_set_sort_remdups distinct_remdups_id)

lemma pairsOf_cong:
  assumes "distinct (map fst v)" and "distinct (map fst w)" and "set v = set w"
  shows "pairsOf v = pairsOf w"
proof -
  have m: "map_of v = map_of w"
    using assms by (simp add: map_of_inject_set)
  have "set (map fst v) = set (map fst w)"
    using assms(3) by simp
  then have "sort (map fst v) = sort (map fst w)"
    using sort_keys [OF assms(1)] sort_keys [OF assms(2)] by simp
  then show ?thesis
    by (simp add: pairsOf_def Values_get_def m)
qed

lemma redact_keys: "map fst (redact a q) = map fst q"
  by (induction q) (auto simp: redact_def)

lemma visiting_order_irrelevant:
  assumes "distinct (map fst entries)" and "set entries = set (URL_Query (URL r))"
  shows "buildFullPath_visiting g r entries = redactedPath g r"
proof -
  let ?q = "URL_Query (URL r)"
  let ?a = "AnonymizedQueryParams g"
  have dq: "distinct (map fst ?q)"
    by (rule URL_Query_distinct)
  note de = assms(1) and se = assms(2)
  have "set (redact ?a entries) = set (redact ?a ?q)"
    by (simp add: redact_def se)
  then have "pairsOf (redact ?a entries) = pairsOf (redact ?a ?q)"
    by (intro pairsOf_cong) (simp_all add: redact_keys de dq)
  then show ?thesis
    by (simp add: redactedPath_def buildFullPath_visiting_def formatPath_pairs
        anonymize_redact de)
qed

lemma buildFullPath_redacted: "buildFullPath g r = redactedPath g r"
  unfolding buildFullPath_def
  by (rule visiting_order_irrelevant) (simp_all add: URL_Query_distinct)

section \<open>What the redacted path holds\<close>

lemma redact_nothing: "redact [] q = q"
  by (induction q) (auto simp: redact_def)

lemma map_of_redact:
  "map_of (redact a q) k = map_option (\<lambda>vs. if k \<in> set a then [''*****''] else vs) (map_of q k)"
  by (induction q) (auto simp: redact_def)

lemma Values_get_distinct:
  "distinct (map fst q) \<Longrightarrow> (k, vs) \<in> set q \<Longrightarrow> Values_get q k = vs"
  by (simp add: Values_get_def)

lemma concat_single_key:
  "distinct ks \<Longrightarrow> concat (map (\<lambda>k'. if k' = k then h k' else []) ks) = (if k \<in> set ks then h k else [])"
  by (induction ks) auto

lemma filter_pairsOf:
  assumes "distinct (map fst v)"
  shows "filter (\<lambda>p. fst p = k) (pairsOf v) = map (Pair k) (Values_get v k)"
proof -
  let ?ks = "sort (map fst v)"
  have d: "distinct ?ks" using assms by simp
  have "filter (\<lambda>p. fst p = k) (pairsOf v)
        = concat (map (\<lambda>k'. if k' = k then map (Pair k') (Values_get v k') else []) ?ks)"
    unfolding pairsOf_def filter_concat map_map
    by (rule arg_cong [where f = concat], rule map_cong) (auto simp: filter_empty_conv)
  also have "\<dots> = (if k \<in> set ?ks then map (Pair k) (Values_get v k) else [])"
    by (rule concat_single_key [OF d])
  also have "\<dots> = map (Pair k) (Values_get v k)"
  proof (cases "k \<in> set ?ks")
    case True
    then show ?thesis by simp
  next
    case False
    then have "map_of v k = None"
      by (simp add: map_of_eq_None_iff)
    with False show ?thesis
      by (simp add: Values_get_def)
  qed
  finally show ?thesis .
qed

text \<open>
  C2, as the specification states it: with no anonymized parameter, \<^verbatim>\<open>buildFullPath\<close>
  returns the path, \<^verbatim>\<open>?\<close> and the raw query, character for character. The code parses
  the query into a map, writes the map with its keys in ascending order and unescapes
  the result: for the query \<^verbatim>\<open>b=x%2Fy&a=2\<close> it returns \<^verbatim>\<open>/foo?a=2&b=x/y\<close>.
\<close>

theorem full_path_identity_counterexample:
  "AnonymizedQueryParams test_globals = []
   \<and> RawQuery (URL unsorted_request) = ''b=x%2Fy&a=2''
   \<and> buildFullPath test_globals unsorted_request = ''/foo?a=2&b=x/y''
   \<and> buildFullPath test_globals unsorted_request
       \<noteq> Path (URL unsorted_request) @ ''?'' @ RawQuery (URL unsorted_request)"
  by code_simp

text \<open>
  C2, amended: with no anonymized parameter, \<^verbatim>\<open>buildFullPath\<close> returns the path alone
  when the query holds no parameter, and otherwise the path, \<^verbatim>\<open>?\<close> and the parameters of
  the query written \<^verbatim>\<open>name=value\<close> with names and values percent-decoded, joined by
  \<^verbatim>\<open>&\<close>, in ascending order of the names (the values of one name in the order of the
  request).
\<close>

theorem full_path_without_anonymization:
  assumes "AnonymizedQueryParams g = []"
  shows "buildFullPath g r = Path (URL r) @ queryPart (pairsOf (URL_Query (URL r)))"
  using assms by (simp add: buildFullPath_redacted redactedPath_def redact_nothing)

theorem full_path_without_anonymization_witness:
  "AnonymizedQueryParams test_globals = []
   \<and> buildFullPath test_globals test_request = ''/foo?q=bar''"
proof -
  have h: "AnonymizedQueryParams test_globals = []"
    by (simp add: test_globals_def)
  have "Path (URL test_request) @ queryPart (pairsOf (URL_Query (URL test_request))) = ''/foo?q=bar''"
    by code_simp
  with full_path_without_anonymization [OF h, of test_request] h show ?thesis
    by simp
qed

text \<open>
  C10. When a parameter name occurs in the query with the values \<^verbatim>\<open>vs\<close> (one for each
  occurrence), the path that \<^verbatim>\<open>buildFullPath\<close> returns is written from pairs of which
  exactly one has that name, with the value \<^verbatim>\<open>*****\<close>, if the name is anonymized; if it
  is not, the name keeps one pair for each of its values, in their order.
\<close>

theorem anonymized_multi_value_collapses:
  assumes "(k, vs) \<in> set (URL_Query (URL r))"
  shows "buildFullPath g r
           = Path (URL r) @ queryPart (pairsOf (anonymize (AnonymizedQueryParams g) (URL_Query (URL r))))
         \<and> filter (\<lambda>p. fst p = k) (pairsOf (anonymize (AnonymizedQueryParams g) (URL_Query (URL r))))
           = (if k \<in> set (AnonymizedQueryParams g) then [(k, ''*****'')] else map (Pair k) vs)"
proof -
  let ?q = "URL_Query (URL r)" and ?a = "AnonymizedQueryParams g"
  have dq: "distinct (map fst ?q)"
    by (rule URL_Query_distinct)
  have an: "anonymize ?a ?q = redact ?a ?q"
    by (rule anonymize_redact [OF dq])
  have dr: "distinct (map fst (redact ?a ?q))"
    by (simp add: redact_keys dq)
  have "map_of ?q k = Some vs"
    using assms dq by simp
  then have "Values_get (redact ?a ?q) k = (if k \<in> set ?a then [''*****''] else vs)"
    by (simp add: Values_get_def map_of_redact)
  then show ?thesis
    by (simp add: an filter_pairsOf [OF dr] buildFullPath_redacted redactedPath_def)
qed

theorem anonymized_multi_value_collapses_witness:
  "(''q'', [''a'', ''b'']) \<in> set (URL_Query (URL repeated_request))
   \<and> buildFullPath anonymizing_globals repeated_request = ''/foo?p=1&p=2&q=*****''
   \<and> filter (\<lambda>p. fst p = ''q'')
        (pairsOf (anonymize (AnonymizedQueryParams anonymizing_globals) (URL_Query (URL repeated_request))))
       = [(''q'', ''*****'')]"
proof -
  have h: "(''q'', [''a'', ''b'']) \<in> set (URL_Query (URL repeated_request))"
    by code_simp
  have a: "''q'' \<in> set (AnonymizedQueryParams anonymizing_globals)"
    by code_simp
  have "Path (URL repeated_request) @ queryPart (pairsOf (anonymize (AnonymizedQueryParams anonymizing_globals) (URL_Query (URL repeated_request))))
        = ''/foo?p=1&p=2&q=*****''"
    by code_simp
  with anonymized_multi_value_collapses [OF h, of anonymizing_globals] h a show ?thesis
    by simp
qed


section \<open>Fields of the events\<close>

lemma map_of_setCorrelationIds_other:
  "name \<noteq> ''correlation_id'' \<Longrightarrow> name \<noteq> ''user_correlation_id'' \<Longrightarrow>
   map_of (setCorrelationIds g flds h) name = map_of flds name"
  by (simp add: setCorrelationIds_def Let_def update_conv')

lemma access_split:
  "access g r start now s err =
     (let flds = setCorrelationIds g (accessFields g r start now s err) (Header r);
          cookies = loggedCookies (AccessLogCookiesBlacklist g) (Cookies r)
      in if length cookies > 0 then AList.update ''cookies'' (FCookies cookies) flds else flds)"
  unfolding access_def accessFields_def Let_def by (rule refl)

lemma status_error_lookup:
  "map_of (case err of
             None \<Rightarrow> (if s \<noteq> 0 then AList.update ''response_status'' (FInt s) base else base)
           | Some e \<Rightarrow> AList.update ''error'' (FString e)
                        (if s \<noteq> 0 then AList.update ''response_status'' (FInt s) base else base))
      name
   = (if name = ''error'' \<and> err \<noteq> None then map_option FString err
      else if name = ''response_status'' \<and> s \<noteq> 0 then Some (FInt s)
      else map_of base name)"
  by (cases err) (simp_all add: update_conv')

lemma accessFields_lookup:
  "map_of (accessFields g r start now s err) name =
     (if name = ''error'' \<and> err \<noteq> None then map_option FString err
      else if name = ''response_status'' \<and> s \<noteq> 0 then Some (FInt s)
      else map_of
        [(''type'', FString ''access''),
         (''@timestamp'', FTime start),
         (''remote_ip'', FString (getRemoteIp r)),
         (''host'', FString (Host r)),
         (''url'', FString (buildFullPath g r)),
         (''method'', FString (Method r)),
         (''proto'', FString (Proto r)),
         (''duration'', FInt ((now - start) sdiv 1000000)),
         (''User_Agent'', FString (Header r ''User-Agent''))] name)"
  unfolding accessFields_def Let_def by (rule status_error_lookup)

lemma access_lookup:
  "map_of (access g r start now s err) name =
     (if name = ''cookies'' \<and> loggedCookies (AccessLogCookiesBlacklist g) (Cookies r) \<noteq> []
      then Some (FCookies (loggedCookies (AccessLogCookiesBlacklist g) (Cookies r)))
      else map_of (setCorrelationIds g (accessFields g r start now s err) (Header r)) name)"
  by (simp add: access_split Let_def update_conv')

lemma access_url: "map_of (access g r start now s err) ''url'' = Some (FString (buildFullPath g r))"
  by (simp add: access_lookup map_of_setCorrelationIds_other accessFields_lookup)

lemma access_type: "map_of (access g r start now s err) ''type'' = Some (FString ''access'')"
  by (simp add: access_lookup map_of_setCorrelationIds_other accessFields_lookup)

lemma access_error:
  "map_of (access g r start now s (Some msg)) ''error'' = Some (FString msg)"
  by (simp add: access_lookup map_of_setCorrelationIds_other accessFields_lookup)

lemma access_status:
  "map_of (access g r start now s err) ''response_status'' = (if s \<noteq> 0 then Some (FInt s) else None)"
  by (simp add: access_lookup map_of_setCorrelationIds_other accessFields_lookup)

lemma Access_Data:
  "map Data (Access g r start now s out) = map Data out @ [access g r start now s None]"
  by (simp add: Access_def Let_def Entry_Info_def Entry_Warn_def Entry_Error_def emit_def)

lemma AccessError_Data:
  "map Data (AccessError g r start now err out) = map Data out @ [access g r start now 0 (Some err)]"
  by (simp add: AccessError_def Let_def Entry_Error_def emit_def)

lemma field_map_Data: "map (\<lambda>e. field e name) es = map (\<lambda>d. map_of d name) (map Data es)"
  by (simp add: field_def)

lemma Access_last:
  "field (last (Access g r start now s out)) name = map_of (access g r start now s None) name
   \<and> message (last (Access g r start now s out))
       = fmtInt s @ '' ->'' @ Method r @ '' '' @ Path (URL r)
           @ (if length (RawQuery (URL r)) = 0 then [] else ''?...'')"
  by (simp add: Access_def Let_def Entry_Info_def Entry_Warn_def Entry_Error_def emit_def field_def)

lemma Access_url:
  "map (\<lambda>e. field e ''url'') (Access g r start now s out)
     = map (\<lambda>e. field e ''url'') out @ [Some (FString (buildFullPath g r))]"
  unfolding field_map_Data Access_Data by (simp add: access_url)

lemma Call_url:
  "map (\<lambda>e. field e ''url'') (Call g r resp start now err out)
     = map (\<lambda>e. field e ''url'') out @ [Some (FString (buildFullPath g r))]"
  by (simp add: Call_def Let_def Entry_Info_def Entry_Warn_def Entry_Error_def emit_def field_def
      update_conv' map_of_setCorrelationIds_other split: option.split)

lemma Call_full_url:
  "map (\<lambda>e. field e ''full_url'') (Call g r resp start now err out)
     = map (\<lambda>e. field e ''full_url'') out @ [Some (FString (buildFullUrl g r))]"
  by (simp add: Call_def Let_def Entry_Info_def Entry_Warn_def Entry_Error_def emit_def field_def
      update_conv' map_of_setCorrelationIds_other split: option.split)

text \<open>
  C3, as the specification states it: in the \<^verbatim>\<open>url\<close> and \<^verbatim>\<open>full_url\<close> fields the value
  of an anonymized parameter is exactly the mask, and every other parameter appears with
  its value preserved verbatim. The path is written unescaped. With \<^verbatim>\<open>q\<close> anonymized
  and the query \<^verbatim>\<open>a=x%26q%3Dsecret&q=real\<close> the field is \<^verbatim>\<open>/foo?a=x&q=secret&q=*****\<close>:
  read as a query it gives \<^verbatim>\<open>q\<close> the values \<^verbatim>\<open>secret\<close> and \<^verbatim>\<open>*****\<close>, and it gives
  \<^verbatim>\<open>a\<close> the value \<^verbatim>\<open>x\<close>, which is neither the text of the request nor the value
  \<^verbatim>\<open>x&q=secret\<close> that the request gave it.
\<close>

theorem masked_value_counterexample:
  "AnonymizedQueryParams anonymizing_globals = [''q'']
   \<and> RawQuery (URL injected_request) = ''a=x%26q%3Dsecret&q=real''
   \<and> URL_Query (URL injected_request) = [(''a'', [''x&q=secret'']), (''q'', [''real''])]
   \<and> field (last (Access anonymizing_globals injected_request 0 1 200 [])) ''url''
       = Some (FString ''/foo?a=x&q=secret&q=*****'')
   \<and> parseQuery [] ''a=x&q=secret&q=*****'' = [(''a'', [''x'']), (''q'', [''secret'', ''*****''])]
   \<and> Values_get (parseQuery [] ''a=x&q=secret&q=*****'') ''q'' \<noteq> [''*****'']
   \<and> Values_get (parseQuery [] ''a=x&q=secret&q=*****'') ''a''
       \<noteq> Values_get (URL_Query (URL injected_request)) ''a''"
proof -
  have p: "buildFullPath anonymizing_globals injected_request = ''/foo?a=x&q=secret&q=*****''"
    by code_simp
  have u: "field (last (Access anonymizing_globals injected_request 0 1 200 [])) ''url''
       = Some (FString ''/foo?a=x&q=secret&q=*****'')"
    using Access_last [of anonymizing_globals injected_request 0 1 200 "[]" "''url''"] p
    by (simp add: access_url)
  have rest: "AnonymizedQueryParams anonymizing_globals = [''q'']
   \<and> RawQuery (URL injected_request) = ''a=x%26q%3Dsecret&q=real''
   \<and> URL_Query (URL injected_request) = [(''a'', [''x&q=secret'']), (''q'', [''real''])]
   \<and> parseQuery [] ''a=x&q=secret&q=*****'' = [(''a'', [''x'']), (''q'', [''secret'', ''*****''])]
   \<and> Values_get (parseQuery [] ''a=x&q=secret&q=*****'') ''q'' \<noteq> [''*****'']
   \<and> Values_get (parseQuery [] ''a=x&q=secret&q=*****'') ''a''
       \<noteq> Values_get (URL_Query (URL injected_request)) ''a''"
    by code_simp
  from u rest show ?thesis
    by (simp add: Values_get_def)
qed

text \<open>
  C3, amended: whatever the order in which the loop of \<^verbatim>\<open>buildFullPath\<close> visits the
  parameters of the query (each of them once), the path it returns is the same string:
  the path of the request and the parameters written \<^verbatim>\<open>name=value\<close> and joined by
  \<^verbatim>\<open>&\<close>, where a name in the anonymized set is written once, with the value \<^verbatim>\<open>*****\<close>,
  and every other name is written with each of its values as \<^verbatim>\<open>URL.Query\<close> gives them
  (percent-decoded), nothing being escaped again. That string is the \<^verbatim>\<open>url\<close> field of
  access and call events, and, behind scheme, host and port, the \<^verbatim>\<open>full_url\<close> field
  of call events.
\<close>

theorem anonymized_values_masked:
  assumes "distinct (map fst entries)" and "set entries = set (URL_Query (URL r))"
  shows "buildFullPath_visiting g r entries = redactedPath g r
    \<and> (\<forall>k vs. (k, vs) \<in> set (URL_Query (URL r)) \<longrightarrow>
          Values_get (anonymize (AnonymizedQueryParams g) entries) k
            = (if k \<in> set (AnonymizedQueryParams g) then [''*****''] else vs))
    \<and> map (\<lambda>e. field e ''url'') (Access g r start now s []) = [Some (FString (redactedPath g r))]
    \<and> map (\<lambda>e. field e ''url'') (Call g r resp start now err []) = [Some (FString (redactedPath g r))]
    \<and> map (\<lambda>e. field e ''full_url'') (Call g r resp start now err [])
        = [Some (FString (Scheme (URL r) @ ''://'' @ Hostname (URL r)
                    @ (if Port (URL r) \<noteq> [] then '':'' @ Port (URL r) else [])
                    @ redactedPath g r))]"
proof -
  let ?a = "AnonymizedQueryParams g"
  have an: "anonymize ?a entries = redact ?a entries"
    by (rule anonymize_redact [OF assms(1)])
  have vals: "Values_get (anonymize ?a entries) k = (if k \<in> set ?a then [''*****''] else vs)"
    if "(k, vs) \<in> set (URL_Query (URL r))" for k vs
  proof -
    from that assms have "map_of entries k = Some vs"
      by simp
    then show ?thesis
      by (simp add: an Values_get_def map_of_redact)
  qed
  have full: "buildFullUrl g r = Scheme (URL r) @ ''://'' @ Hostname (URL r)
                    @ (if Port (URL r) \<noteq> [] then '':'' @ Port (URL r) else [])
                    @ redactedPath g r"
    by (simp add: buildFullUrl_def Let_def buildFullPath_redacted)
  show ?thesis
    using visiting_order_irrelevant [OF assms, of g] vals
      Access_url [of g r start now s "[]"] Call_url [of g r resp start now err "[]"]
      Call_full_url [of g r resp start now err "[]"] full
    by (simp add: buildFullPath_redacted)
qed

theorem anonymized_values_masked_witness:
  "distinct (map fst [(''p'', [''1'', ''2'']), (''q'', [''a'', ''b''])])
   \<and> set [(''p'', [''1'', ''2'']), (''q'', [''a'', ''b''])] = set (URL_Query (URL repeated_request))
   \<and> buildFullPath_visiting anonymizing_globals repeated_request
        [(''p'', [''1'', ''2'']), (''q'', [''a'', ''b''])] = ''/foo?p=1&p=2&q=*****''
   \<and> (''q'', [''a'', ''b'']) \<in> set (URL_Query (URL repeated_request))
   \<and> Values_get (anonymize (AnonymizedQueryParams anonymizing_globals)
                    [(''p'', [''1'', ''2'']), (''q'', [''a'', ''b''])]) ''q'' = [''*****'']
   \<and> (''p'', [''1'', ''2'']) \<in> set (URL_Query (URL repeated_request))
   \<and> Values_get (anonymize (AnonymizedQueryParams anonymizing_globals)
                    [(''p'', [''1'', ''2'']), (''q'', [''a'', ''b''])]) ''p'' = [''1'', ''2'']
   \<and> map (\<lambda>e. field e ''full_url'') (Call anonymizing_globals repeated_request None 0 1 None [])
        = [Some (FString ''http://www.example.org/foo?p=1&p=2&q=*****'')]"
proof -
  let ?es = "[(''p'', [''1'', ''2'']), (''q'', [''a'', ''b''])]"
  have h1: "distinct (map fst ?es)"
    by simp
  have h2: "set ?es = set (URL_Query (URL repeated_request))"
    by code_simp
  have p: "redactedPath anonymizing_globals repeated_request = ''/foo?p=1&p=2&q=*****''"
    by code_simp
  have u: "Scheme (URL repeated_request) = ''http'' \<and> Hostname (URL repeated_request) = ''www.example.org''
      \<and> Port (URL repeated_request) = []"
    by code_simp
  have mq: "(''q'', [''a'', ''b'']) \<in> set (URL_Query (URL repeated_request))"
    and mp: "(''p'', [''1'', ''2'']) \<in> set (URL_Query (URL repeated_request))"
    by code_simp+
  have a: "''q'' \<in> set (AnonymizedQueryParams anonymizing_globals)
      \<and> ''p'' \<notin> set (AnonymizedQueryParams anonymizing_globals)"
    by code_simp
  note t = anonymized_values_masked [OF h1 h2, of anonymizing_globals 0 1 200 None None]
  from t have v: "\<And>k vs. (k, vs) \<in> set (URL_Query (URL repeated_request)) \<Longrightarrow>
      Values_get (anonymize (AnonymizedQueryParams anonymizing_globals) ?es) k
        = (if k \<in> set (AnonymizedQueryParams anonymizing_globals) then [''*****''] else vs)"
    by simp
  from t v [OF mq] v [OF mp] h1 h2 p u mq mp a show ?thesis
    by simp
qed

section \<open>Cookies of the access event\<close>

lemma fold_update_if_lookup:
  "map_of (fold (\<lambda>(name, val) m. if P name then AList.update name val m else m) cs acc) n
   = (case map_of (rev (filter (\<lambda>c. P (fst c)) cs)) n of
        Some v \<Rightarrow> Some v
      | None \<Rightarrow> map_of acc n)"
proof (induction cs arbitrary: acc)
  case Nil
  show ?case by simp
next
  case (Cons c cs)
  obtain name val where c: "c = (name, val)" by (cases c)
  show ?case
    by (simp add: c Cons.IH update_conv' map_add_def split: option.split)
qed

lemma loggedCookies_lookup:
  "map_of (loggedCookies bl cs) n = map_of (rev (filter (\<lambda>c. fst c \<notin> set bl) cs)) n"
  unfolding loggedCookies_def
  using fold_update_if_lookup [of "\<lambda>name. \<not> contains bl name" cs "[]" n]
  by (simp add: contains_iff split: option.split_asm)

lemma map_of_rev_filter:
  "map_of (rev (filter (\<lambda>c. fst c \<notin> set bl) cs)) n
     = (if n \<in> set bl then None else map_of (rev cs) n)"
  by (induction cs) (auto simp: map_add_def split: option.split)

lemma fold_update_if_empty:
  "fold (\<lambda>(name, val) m. if P name then AList.update name val m else m) cs acc = []
   \<longleftrightarrow> acc = [] \<and> filter (\<lambda>c. P (fst c)) cs = []"
proof (induction cs arbitrary: acc)
  case Nil
  show ?case by simp
next
  case (Cons c cs)
  obtain name val where c: "c = (name, val)" by (cases c)
  show ?case
    by (simp add: c Cons.IH)
qed

lemma loggedCookies_empty:
  "loggedCookies bl cs = [] \<longleftrightarrow> filter (\<lambda>c. fst c \<notin> set bl) cs = []"
  unfolding loggedCookies_def
  using fold_update_if_empty [of "\<lambda>name. \<not> contains bl name" cs "[]"]
  by (simp add: contains_iff)

lemma access_cookies:
  "map_of (access g r start now s err) ''cookies''
     = (if filter (\<lambda>c. fst c \<notin> set (AccessLogCookiesBlacklist g)) (Cookies r) = [] then None
        else Some (FCookies (loggedCookies (AccessLogCookiesBlacklist g) (Cookies r))))"
  by (simp add: access_lookup map_of_setCorrelationIds_other accessFields_lookup loggedCookies_empty)

text \<open>
  C4, as the specification states it: the \<^verbatim>\<open>cookies\<close> field holds, for every cookie of
  the request that is not blacklisted, an entry with the value of that cookie. The
  field is a map from names: of two cookies with one name the later one overwrites the
  earlier one, whose value is not in the field.
\<close>

theorem cookie_value_counterexample:
  "(''foo'', ''1'') \<in> set (Cookies duplicate_cookie_request)
   \<and> \<not> contains (AccessLogCookiesBlacklist test_globals) ''foo''
   \<and> field (last (Access test_globals duplicate_cookie_request 0 1 200 [])) ''cookies''
       = Some (FCookies [(''foo'', ''2'')])
   \<and> map_of [(''foo'', ''2'')] ''foo'' \<noteq> Some ''1''"
  by code_simp

text \<open>
  C4, amended: the \<^verbatim>\<open>cookies\<close> field of an access event is left out when the request
  has no cookie outside the blacklist. Otherwise it is a map that has no entry for a
  blacklisted name and, for every other name, the value of the last cookie of the
  request with that name (no entry when no cookie has the name).
\<close>

theorem logged_cookies:
  "map (\<lambda>e. field e ''cookies'') (Access g r start now s out)
     = map (\<lambda>e. field e ''cookies'') out
       @ [if filter (\<lambda>c. fst c \<notin> set (AccessLogCookiesBlacklist g)) (Cookies r) = [] then None
          else Some (FCookies (loggedCookies (AccessLogCookiesBlacklist g) (Cookies r)))]
   \<and> map (\<lambda>e. field e ''cookies'') (AccessError g r start now err out)
     = map (\<lambda>e. field e ''cookies'') out
       @ [if filter (\<lambda>c. fst c \<notin> set (AccessLogCookiesBlacklist g)) (Cookies r) = [] then None
          else Some (FCookies (loggedCookies (AccessLogCookiesBlacklist g) (Cookies r)))]
   \<and> map_of (loggedCookies (AccessLogCookiesBlacklist g) (Cookies r)) name
     = (if name \<in> set (AccessLogCookiesBlacklist g) then None else map_of (rev (Cookies r)) name)"
  unfolding field_map_Data Access_Data AccessError_Data
  by (simp add: access_cookies loggedCookies_lookup map_of_rev_filter)

theorem logged_cookies_witness:
  "map (\<lambda>e. field e ''cookies'') (Access test_globals test_request 0 1000000000 201 [])
     = [Some (FCookies [(''foo'', ''bar'')])]
   \<and> map_of (loggedCookies (AccessLogCookiesBlacklist test_globals) (Cookies test_request)) ''ignore'' = None
   \<and> map_of (loggedCookies (AccessLogCookiesBlacklist test_globals) (Cookies test_request)) ''foo'' = Some ''bar''"
proof -
  have a: "filter (\<lambda>c. fst c \<notin> set (AccessLogCookiesBlacklist test_globals)) (Cookies test_request)
             = [(''foo'', ''bar'')]"
    by code_simp
  have b: "loggedCookies (AccessLogCookiesBlacklist test_globals) (Cookies test_request) = [(''foo'', ''bar'')]"
    by code_simp
  have c: "''ignore'' \<in> set (AccessLogCookiesBlacklist test_globals)"
    by code_simp
  have d: "''foo'' \<notin> set (AccessLogCookiesBlacklist test_globals)"
    by code_simp
  have e: "map_of (rev (Cookies test_request)) ''foo'' = Some ''bar''"
    by code_simp
  show ?thesis
    using logged_cookies [of test_globals test_request 0 1000000000 201 "[]" "[]" "''ignore''"]
      logged_cookies [of test_globals test_request 0 1000000000 201 "[]" "[]" "''foo''"] a b c d e
    by simp
qed


section \<open>Correlation identifiers of the events\<close>

lemma map_of_setCorrelationIds_cid:
  "map_of (setCorrelationIds g flds h) ''correlation_id''
     = (if h (CorrelationIdHeader g) \<noteq> [] then Some (FString (h (CorrelationIdHeader g)))
        else map_of flds ''correlation_id'')"
  by (simp add: setCorrelationIds_def Let_def update_conv' GetCorrelationId_def)

lemma map_of_setCorrelationIds_ucid:
  "map_of (setCorrelationIds g flds h) ''user_correlation_id''
     = (if h (UserCorrelationIdHeader g) \<noteq> [] then Some (FString (h (UserCorrelationIdHeader g)))
        else map_of flds ''user_correlation_id'')"
  by (simp add: setCorrelationIds_def Let_def update_conv' GetUserCorrelationId_def)

lemma access_ids:
  "map_of (access g r start now s err) ''correlation_id'' = idField (Header r (CorrelationIdHeader g))
   \<and> map_of (access g r start now s err) ''user_correlation_id''
       = idField (Header r (UserCorrelationIdHeader g))"
  by (simp add: access_lookup map_of_setCorrelationIds_cid map_of_setCorrelationIds_ucid
      accessFields_lookup idField_def)

lemma Call_ids:
  "map (\<lambda>e. field e ''correlation_id'') (Call g r resp start now err out)
     = map (\<lambda>e. field e ''correlation_id'') out @ [idField (Header r (CorrelationIdHeader g))]
   \<and> map (\<lambda>e. field e ''user_correlation_id'') (Call g r resp start now err out)
     = map (\<lambda>e. field e ''user_correlation_id'') out @ [idField (Header r (UserCorrelationIdHeader g))]"
  by (simp add: Call_def Let_def Entry_Info_def Entry_Warn_def Entry_Error_def emit_def field_def
      update_conv' map_of_setCorrelationIds_cid map_of_setCorrelationIds_ucid idField_def
      split: option.split)

text \<open>
  C9. In every event built from a request by \<^verbatim>\<open>Access\<close>, \<^verbatim>\<open>AccessError\<close> or \<^verbatim>\<open>Call\<close>
  and in every entry of \<^verbatim>\<open>Application\<close>, the field \<^verbatim>\<open>correlation_id\<close> is the value of the
  request-correlation header, as it is, when that value is not empty, and the field is
  absent when the header is unset or empty; likewise \<^verbatim>\<open>user_correlation_id\<close> and the
  user-correlation header.
\<close>

theorem correlation_ids_copied:
  "map (\<lambda>e. field e ''correlation_id'') (Access g r start now s out)
     = map (\<lambda>e. field e ''correlation_id'') out @ [idField (Header r (CorrelationIdHeader g))]
   \<and> map (\<lambda>e. field e ''user_correlation_id'') (Access g r start now s out)
     = map (\<lambda>e. field e ''user_correlation_id'') out @ [idField (Header r (UserCorrelationIdHeader g))]
   \<and> map (\<lambda>e. field e ''correlation_id'') (AccessError g r start now msg out)
     = map (\<lambda>e. field e ''correlation_id'') out @ [idField (Header r (CorrelationIdHeader g))]
   \<and> map (\<lambda>e. field e ''user_correlation_id'') (AccessError g r start now msg out)
     = map (\<lambda>e. field e ''user_correlation_id'') out @ [idField (Header r (UserCorrelationIdHeader g))]
   \<and> map (\<lambda>e. field e ''correlation_id'') (Call g r resp start now err out)
     = map (\<lambda>e. field e ''correlation_id'') out @ [idField (Header r (CorrelationIdHeader g))]
   \<and> map (\<lambda>e. field e ''user_correlation_id'') (Call g r resp start now err out)
     = map (\<lambda>e. field e ''user_correlation_id'') out @ [idField (Header r (UserCorrelationIdHeader g))]
   \<and> map_of (Application g h) ''correlation_id'' = idField (h (CorrelationIdHeader g))
   \<and> map_of (Application g h) ''user_correlation_id'' = idField (h (UserCorrelationIdHeader g))"
proof -
  have app: "map_of (Application g h) ''correlation_id'' = idField (h (CorrelationIdHeader g))
      \<and> map_of (Application g h) ''user_correlation_id'' = idField (h (UserCorrelationIdHeader g))"
    by (simp add: Application_def map_of_setCorrelationIds_cid map_of_setCorrelationIds_ucid
        idField_def)
  have acc: "map (\<lambda>e. field e name) (Access g r start now s out)
      = map (\<lambda>e. field e name) out @ [map_of (access g r start now s None) name]" for name
    unfolding field_map_Data Access_Data by simp
  have acce: "map (\<lambda>e. field e name) (AccessError g r start now msg out)
      = map (\<lambda>e. field e name) out @ [map_of (access g r start now 0 (Some msg)) name]" for name
    unfolding field_map_Data AccessError_Data by simp
  show ?thesis
    using app Call_ids [of g r resp start now err out]
    by (simp add: acc acce access_ids)
qed

theorem correlation_ids_copied_witness:
  "map (\<lambda>e. field e ''correlation_id'') (Access test_globals test_request 0 1000000000 201 [])
     = [Some (FString ''correlation-123'')]
   \<and> map (\<lambda>e. field e ''user_correlation_id'') (Call test_globals test_request None 0 1000000000 None [])
     = [Some (FString ''user-correlation-123'')]
   \<and> map_of (Application test_globals (\<lambda>k. [])) ''correlation_id'' = None"
proof -
  have a: "Header test_request (CorrelationIdHeader test_globals) = ''correlation-123''"
    by code_simp
  have b: "Header test_request (UserCorrelationIdHeader test_globals) = ''user-correlation-123''"
    by code_simp
  show ?thesis
    using correlation_ids_copied [where g = test_globals and r = test_request and start = 0
        and now = 1000000000 and s = 201 and out = "[]" and msg = "[]" and resp = None
        and err = None and h = "\<lambda>k. []"] a b
    by (simp add: idField_def)
qed


section \<open>The outbound call reporter\<close>

text \<open>
  C7. Every invocation of \<^verbatim>\<open>Call\<close> hands exactly one event to the sink. With an error,
  the event has severity error, the text of the error as its message and as its
  \<^verbatim>\<open>error\<close> field. Without an error and with a response, it carries \<^verbatim>\<open>response_status\<close>
  and \<^verbatim>\<open>content_type\<close>, its severity follows the status and its message is the status,
  the method followed by \<^verbatim>\<open>->\<close>, and the full URL. With neither, its severity is
  warning and its message \<^verbatim>\<open>call, but no response given\<close>.
\<close>

theorem call_event:
  "\<exists>ev. Call g r resp start now err out = out @ [ev]
     \<and> field ev ''type'' = Some (FString ''call'')
     \<and> (case err of
          Some e \<Rightarrow> severity ev = ErrorLevel \<and> message ev = e \<and> field ev ''error'' = Some (FString e)
        | None \<Rightarrow>
            (case resp of
               Some rsp \<Rightarrow>
                 field ev ''response_status'' = Some (FInt (StatusCode rsp))
                 \<and> field ev ''content_type'' = Some (FString (RespHeader rsp ''Content-Type''))
                 \<and> severity ev = severityOfStatus (StatusCode rsp)
                 \<and> message ev = fmtInt (StatusCode rsp) @ '' '' @ Method r @ ''-> '' @ buildFullUrl g r
             | None \<Rightarrow>
                 severity ev = WarnLevel \<and> message ev = ''call, but no response given''))"
  by (simp add: Call_def Let_def Entry_Info_def Entry_Warn_def Entry_Error_def emit_def field_def
      update_conv' map_of_setCorrelationIds_other severityOfStatus_def split: option.split)

theorem call_event_witness:
  "Call test_globals test_request (Some test_response) 0 1000000000 None [] \<noteq> []
   \<and> map severity (Call test_globals test_request (Some test_response) 0 1000000000 None [])
       = [WarnLevel]
   \<and> map message (Call test_globals test_request (Some test_response) 0 1000000000 None [])
       = [''404 GET-> http://www.example.org/foo?q=bar'']
   \<and> map message (Call test_globals test_request None 0 1000000000 (Some ''oops'') []) = [''oops'']
   \<and> map message (Call test_globals test_request None 0 1000000000 None [])
       = [''call, but no response given'']"
proof -
  have m: "fmtInt (StatusCode test_response) @ '' '' @ Method test_request @ ''-> ''
             @ buildFullUrl test_globals test_request = ''404 GET-> http://www.example.org/foo?q=bar''"
    by code_simp
  have s: "severityOfStatus (StatusCode test_response) = WarnLevel"
    by code_simp
  show ?thesis
    using call_event [of test_globals test_request "Some test_response" 0 1000000000 None "[]"]
      call_event [of test_globals test_request None 0 1000000000 "Some ''oops''" "[]"]
      call_event [of test_globals test_request None 0 1000000000 None "[]"] m s
    by auto
qed

section \<open>Setting the level\<close>

text \<open>
  C8. When the parser of level names rejects the string, \<^verbatim>\<open>Set\<close> returns that error and
  leaves the package variables, the logger among them, as they were. When the parser
  accepts it, \<^verbatim>\<open>Set\<close> returns no error and replaces the logger by one at the parsed
  level, with the formatter asked for.
\<close>

theorem Set_reports_invalid_level:
  "(\<forall>e. parseLevel s = Inl e \<longrightarrow> Set parseLevel s textLogging g = (Some e, g))
   \<and> (\<forall>l. parseLevel s = Inr l \<longrightarrow>
         Set parseLevel s textLogging g
           = (None, g\<lparr>Logger := \<lparr>Formatter = (if textLogging then TextFormatter else LogstashFormatter),
                                  Level = l\<rparr>\<rparr>))"
  by (simp add: Set_def Let_def)

theorem Set_reports_invalid_level_witness:
  "ParseLevel ''verbose'' = Inl (NotAValidLevel ''verbose'')
   \<and> Set ParseLevel ''verbose'' False test_globals = (Some (NotAValidLevel ''verbose''), test_globals)
   \<and> ParseLevel ''Error'' = Inr ErrorLevel
   \<and> fst (Set ParseLevel ''Error'' True test_globals) = None
   \<and> Logger (snd (Set ParseLevel ''Error'' True test_globals))
       = \<lparr>Formatter = TextFormatter, Level = ErrorLevel\<rparr>"
proof -
  have a: "ParseLevel ''verbose'' = Inl (NotAValidLevel ''verbose'')"
    by code_simp
  have b: "ParseLevel ''Error'' = Inr ErrorLevel"
    by code_simp
  show ?thesis
    using Set_reports_invalid_level [of ParseLevel "''verbose''" False test_globals]
      Set_reports_invalid_level [of ParseLevel "''Error''" True test_globals] a b
    by simp
qed


section \<open>The middleware: recorded status and recovered panics\<close>

lemma fold_perform:
  "fold perform acts lrw
     = \<lparr>ResponseWriter = ResponseWriter lrw @ acts,
        statusCode = (if headerCodes acts = [] then statusCode lrw else last (headerCodes acts))\<rparr>"
proof (induction acts arbitrary: lrw)
  case Nil
  show ?case by simp
next
  case (Cons a acts)
  show ?case
    by (cases a) (simp_all add: Cons.IH lrw_WriteHeader_def lrw_Write_def Let_def)
qed

lemma Ensure_keeps:
  "Method (EnsureCorrelationId g mint r) = Method r
   \<and> URL (EnsureCorrelationId g mint r) = URL r
   \<and> Cookies (EnsureCorrelationId g mint r) = Cookies r"
  by (simp add: EnsureCorrelationId_def split: option.split)

lemma ServeHTTP_sink:
  "fst (snd (ServeHTTP g mint mw w r start now out))
     = out @ fst (snd (ServeHTTP g mint mw w r start now []))"
  by (simp add: ServeHTTP_def Let_def Access_def AccessError_def Entry_Info_def Entry_Warn_def
      Entry_Error_def emit_def split: outcome.split)

lemma ServeHTTP_returned:
  assumes "outcome (Next mw (EnsureCorrelationId g mint r)) = Returned"
  shows "ServeHTTP g mint mw w r start now out
        = (w @ actions (Next mw (EnsureCorrelationId g mint r)),
           Access g (EnsureCorrelationId g mint r) start now
             (recordedStatus (actions (Next mw (EnsureCorrelationId g mint r)))) out,
           Returned)"
  using assms by (simp add: ServeHTTP_def Let_def fold_perform recordedStatus_def)

lemma ServeHTTP_panicked:
  assumes "outcome (Next mw (EnsureCorrelationId g mint r)) = Panicked v stack"
  shows "ServeHTTP g mint mw w r start now out
        = (w @ actions (Next mw (EnsureCorrelationId g mint r))
             @ (if panicCode mw \<noteq> 0 then [WriteHeader (panicCode mw)] else []),
           out @ [\<lparr>Data = access g (EnsureCorrelationId g mint r) start now 0
                            (Some (''PANIC ('' @ identifyLogOrigin stack @ ''): '' @ v)),
                    severity = ErrorLevel,
                    message = ''ERROR ->'' @ Method r @ '' '' @ Path (URL r)\<rparr>],
           Returned)"
  using assms
  by (simp add: ServeHTTP_def Let_def fold_perform AccessError_def Entry_Error_def emit_def
        Ensure_keeps)

text \<open>
  C6, as the specification states it: the status used for the access event is the
  argument of the first call of \<^verbatim>\<open>WriteHeader\<close>, and later calls do not change it. The
  wrapper assigns \<^verbatim>\<open>statusCode\<close> at every call: after \<^verbatim>\<open>WriteHeader(404)\<close> and
  \<^verbatim>\<open>WriteHeader(500)\<close> the access event carries 500.
\<close>

theorem first_status_counterexample:
  "actions (Next twice_mw (EnsureCorrelationId test_globals None test_request))
     = [WriteHeader 404, Write ''not found'', WriteHeader 500]
   \<and> outcome (Next twice_mw (EnsureCorrelationId test_globals None test_request)) = Returned
   \<and> field (last (fst (snd (ServeHTTP test_globals None twice_mw [] test_request 0 1 []))))
        ''response_status'' = Some (FInt 500)
   \<and> message (last (fst (snd (ServeHTTP test_globals None twice_mw [] test_request 0 1 []))))
       = ''500 ->GET /foo?...''"
proof -
  have h: "outcome (Next twice_mw (EnsureCorrelationId test_globals None test_request)) = Returned"
    by (simp add: twice_mw_def)
  have a: "actions (Next twice_mw (EnsureCorrelationId test_globals None test_request))
             = [WriteHeader 404, Write ''not found'', WriteHeader 500]"
    by (simp add: twice_mw_def)
  have e: "EnsureCorrelationId test_globals None test_request = test_request"
    by (simp add: EnsureCorrelationId_def)
  have s: "recordedStatus [WriteHeader 404, Write ''not found'', WriteHeader 500] = 500"
    by (simp add: recordedStatus_def)
  have m: "fmtInt 500 = ''500'' \<and> Method test_request = ''GET'' \<and> Path (URL test_request) = ''/foo''
      \<and> RawQuery (URL test_request) = ''q=bar''"
    by code_simp
  show ?thesis
    using ServeHTTP_returned [OF h, of "[]" 0 1 "[]"] h a e s m
      Access_last [of test_globals test_request 0 1 500 "[]"]
    by (simp add: access_status)
qed

text \<open>
  C6, amended: when the handler returns, the status recorded by the wrapper and passed
  to \<^verbatim>\<open>Access\<close> is 200 if the handler never calls \<^verbatim>\<open>WriteHeader\<close>, and otherwise the
  argument of the last call of \<^verbatim>\<open>WriteHeader\<close> that the handler makes; every call of the
  handler is passed on to the response writer below.
\<close>

theorem recorded_status_is_last:
  assumes "outcome (Next mw (EnsureCorrelationId g mint r)) = Returned"
  shows "statusCode (fold perform (actions (Next mw (EnsureCorrelationId g mint r)))
                       \<lparr>ResponseWriter = w, statusCode = 200\<rparr>)
           = recordedStatus (actions (Next mw (EnsureCorrelationId g mint r)))
    \<and> ServeHTTP g mint mw w r start now out
        = (w @ actions (Next mw (EnsureCorrelationId g mint r)),
           Access g (EnsureCorrelationId g mint r) start now
             (recordedStatus (actions (Next mw (EnsureCorrelationId g mint r)))) out,
           Returned)"
  using ServeHTTP_returned [OF assms] by (simp add: fold_perform recordedStatus_def)

theorem recorded_status_is_last_witness:
  "outcome (Next twice_mw (EnsureCorrelationId test_globals None test_request)) = Returned
   \<and> ServeHTTP test_globals None twice_mw [] test_request 0 1 []
       = ([WriteHeader 404, Write ''not found'', WriteHeader 500],
          Access test_globals test_request 0 1 500 [], Returned)
   \<and> outcome (Next plain_mw (EnsureCorrelationId test_globals None test_request)) = Returned
   \<and> ServeHTTP test_globals None plain_mw [] test_request 0 1 []
       = ([Write ''ok''], Access test_globals test_request 0 1 200 [], Returned)"
proof -
  have h: "outcome (Next twice_mw (EnsureCorrelationId test_globals None test_request)) = Returned"
    by (simp add: twice_mw_def)
  have a: "actions (Next twice_mw (EnsureCorrelationId test_globals None test_request))
             = [WriteHeader 404, Write ''not found'', WriteHeader 500]"
    by (simp add: twice_mw_def)
  have h': "outcome (Next plain_mw (EnsureCorrelationId test_globals None test_request)) = Returned"
    by (simp add: plain_mw_def)
  have a': "actions (Next plain_mw (EnsureCorrelationId test_globals None test_request))
             = [Write ''ok'']"
    by (simp add: plain_mw_def)
  have e: "EnsureCorrelationId test_globals None test_request = test_request"
    by (simp add: EnsureCorrelationId_def)
  have s: "recordedStatus [WriteHeader 404, Write ''not found'', WriteHeader 500] = 500
      \<and> recordedStatus [Write ''ok''] = 200"
    by (simp add: recordedStatus_def)
  show ?thesis
    using recorded_status_is_last [OF h, of "[]" 0 1 "[]"]
      recorded_status_is_last [OF h', of "[]" 0 1 "[]"] h h' a a' e s
    by simp
qed

text \<open>
  C5, as the specification states it: the message of the event emitted for a panic
  matches \<^verbatim>\<open>PANIC (<origin>): v\<close>. That text is the \<^verbatim>\<open>error\<close> field of the event; its
  message is \<^verbatim>\<open>ERROR -><method> <path>\<close>.
\<close>

theorem panic_message_counterexample:
  "outcome (Next panicking_mw (EnsureCorrelationId test_globals None test_request))
     = Panicked ''boom'' test_stack
   \<and> identifyLogOrigin test_stack = ''main.handler:42''
   \<and> message (last (fst (snd (ServeHTTP test_globals None panicking_mw [] test_request 0 1 []))))
       = ''ERROR ->GET /foo''
   \<and> message (last (fst (snd (ServeHTTP test_globals None panicking_mw [] test_request 0 1 []))))
       \<noteq> ''PANIC (main.handler:42): boom''
   \<and> field (last (fst (snd (ServeHTTP test_globals None panicking_mw [] test_request 0 1 []))))
        ''error'' = Some (FString ''PANIC (main.handler:42): boom'')"
proof -
  have h: "outcome (Next panicking_mw (EnsureCorrelationId test_globals None test_request))
             = Panicked ''boom'' test_stack"
    by (simp add: panicking_mw_def)
  have o: "identifyLogOrigin test_stack = ''main.handler:42''"
    by (simp add: identifyLogOrigin_def test_stack_def HasPrefix_def fmtInt_def fmtNat.simps
        digit_def)
  have m: "Method test_request = ''GET'' \<and> Path (URL test_request) = ''/foo''"
    by code_simp
  show ?thesis
    using ServeHTTP_panicked [OF h, of "[]" 0 1 "[]"] h o m
    by (simp add: field_def access_error)
qed

text \<open>
  C5, amended: when the handler panics with the value \<^verbatim>\<open>v\<close>, \<^verbatim>\<open>ServeHTTP\<close> returns (the
  panic is not raised again) and adds exactly one event to the sink: an access event of
  severity error, without a response status, whose \<^verbatim>\<open>error\<close> field is
  \<^verbatim>\<open>PANIC (<origin>): v\<close> and whose message is \<^verbatim>\<open>ERROR -><method> <path>\<close>. A later
  request on the same middleware adds to the sink the events that it adds to an empty
  sink.
\<close>

theorem panic_is_recovered:
  assumes "outcome (Next mw (EnsureCorrelationId g mint r)) = Panicked v stack"
  shows "fst (snd (ServeHTTP g mint mw w r start now out))
           = out @ [last (fst (snd (ServeHTTP g mint mw w r start now out)))]
     \<and> snd (snd (ServeHTTP g mint mw w r start now out)) = Returned
     \<and> severity (last (fst (snd (ServeHTTP g mint mw w r start now out)))) = ErrorLevel
     \<and> message (last (fst (snd (ServeHTTP g mint mw w r start now out))))
         = ''ERROR ->'' @ Method r @ '' '' @ Path (URL r)
     \<and> field (last (fst (snd (ServeHTTP g mint mw w r start now out)))) ''type''
         = Some (FString ''access'')
     \<and> field (last (fst (snd (ServeHTTP g mint mw w r start now out)))) ''error''
         = Some (FString (''PANIC ('' @ identifyLogOrigin stack @ ''): '' @ v))
     \<and> field (last (fst (snd (ServeHTTP g mint mw w r start now out)))) ''response_status'' = None
     \<and> fst (snd (ServeHTTP g mint mw w2 r2 start2 now2
                    (fst (snd (ServeHTTP g mint mw w r start now out)))))
         = fst (snd (ServeHTTP g mint mw w r start now out))
             @ fst (snd (ServeHTTP g mint mw w2 r2 start2 now2 []))"
proof -
  let ?sink = "fst (snd (ServeHTTP g mint mw w r start now out))"
  have later: "fst (snd (ServeHTTP g mint mw w2 r2 start2 now2 ?sink))
             = ?sink @ fst (snd (ServeHTTP g mint mw w2 r2 start2 now2 []))"
    by (rule ServeHTTP_sink)
  show ?thesis
    using later
    by (simp add: ServeHTTP_panicked [OF assms] field_def access_type access_error access_status)
qed

theorem panic_is_recovered_witness:
  "outcome (Next panicking_mw (EnsureCorrelationId test_globals None test_request))
     = Panicked ''boom'' test_stack
   \<and> snd (snd (ServeHTTP test_globals None panicking_mw [] test_request 0 1 [])) = Returned
   \<and> length (fst (snd (ServeHTTP test_globals None panicking_mw [] test_request 0 1 []))) = 1
   \<and> message (last (fst (snd (ServeHTTP test_globals None panicking_mw [] test_request 0 1 []))))
       = ''ERROR ->GET /foo''
   \<and> field (last (fst (snd (ServeHTTP test_globals None panicking_mw [] test_request 0 1 []))))
        ''error'' = Some (FString ''PANIC (main.handler:42): boom'')"
proof -
  have h: "outcome (Next panicking_mw (EnsureCorrelationId test_globals None test_request))
             = Panicked ''boom'' test_stack"
    by (simp add: panicking_mw_def)
  have o: "identifyLogOrigin test_stack = ''main.handler:42''"
    by (simp add: identifyLogOrigin_def test_stack_def HasPrefix_def fmtInt_def fmtNat.simps
        digit_def)
  have m: "Method test_request = ''GET'' \<and> Path (URL test_request) = ''/foo''"
    by code_simp
  have "length (fst (snd (ServeHTTP test_globals None panicking_mw [] test_request 0 1 []))) = 1"
    using panic_is_recovered [OF h, of "[]" 0 1 "[]"]
    by (metis append_Nil length_Cons list.size(3) One_nat_def)
  with panic_is_recovered [OF h, of "[]" 0 1 "[]"] h o m show ?thesis
    by simp
qed


end
